theory Spec2Isabelle
  imports Complex_Main "HOL-Library.AList"
begin

section \<open>Data model of log_analyzer.py\<close>

text \<open>
  Python exceptions that the modelled functions can raise.  A function that may raise
  returns \<open>error + 'a\<close>, with \<open>Inl\<close> for the exception.
\<close>

datatype error = TypeError | KeyError | ValueError | ZeroDivisionError | StatisticsError

text \<open>
  One value of the \<open>report\<close> dictionary of \<open>create_report\<close>: a
  \<open>defaultdict(int)\<close> with the string keys \<open>url\<close>, \<open>requests\<close>, \<open>count\<close>,
  \<open>time_sum\<close> and, after \<open>summarize_report\<close>, the five derived keys.  A key that may be
  absent and whose absence the code can observe is an \<open>option\<close>; \<open>count\<close> and
  \<open>time_sum\<close> are only ever read through the \<open>defaultdict\<close>, where an absent key reads
  as \<open>0\<close>.  Python floats are idealised as exact rationals.
\<close>

record url_report =
  url :: "string option"
  requests :: "rat list option"
  count :: nat
  time_sum :: rat
  count_perc :: "rat option"
  time_perc :: "rat option"
  time_avg :: "rat option"
  time_max :: "rat option"
  time_med :: "rat option"

text \<open>A fresh \<open>defaultdict(int)\<close>: no key is present.\<close>

definition empty_url_report :: url_report where
  "empty_url_report =
     \<lparr>url = None, requests = None, count = 0, time_sum = 0, count_perc = None,
      time_perc = None, time_avg = None, time_max = None, time_med = None\<rparr>"

text \<open>
  The \<open>report\<close> dictionary keeps its keys in insertion order, which \<open>report.values()\<close>
  exposes: an association list.  Its positions serve as the references to the value
  objects, which \<open>summarize_report\<close> updates in place.
\<close>

type_synonym report_dict = "(string \<times> url_report) list"

text \<open>The namedtuple \<open>Report(report, total_requests, total_errors)\<close>.\<close>

datatype Report = Report "url_report list" nat nat

text \<open>
  A compiled pattern, as \<open>parse_line\<close> uses it: \<open>pattern.match(line)\<close> is \<open>None\<close> or a
  match object, of which only \<open>groupdict()\<close> is read.  The dictionary maps every named
  group of the pattern to the text it matched; a name that the pattern does not have is a
  missing key.
\<close>

type_synonym pattern = "string \<Rightarrow> (string \<rightharpoonup> string) option"

section \<open>Built-in functions\<close>

text \<open>
  \<open>round(x, ndigits)\<close> on a float: the nearest multiple of \<open>10 ** -ndigits\<close>, a tie
  going to the even neighbour.
\<close>

definition round_half_even :: "rat \<Rightarrow> int" where
  "round_half_even x =
     (let f = \<lfloor>x\<rfloor>; d = x - of_int f
      in if d < 1 / 2 then f else if 1 / 2 < d then f + 1
         else if even f then f else f + 1)"

definition round_py :: "rat \<Rightarrow> int \<Rightarrow> rat" where
  "round_py x ndigits =
     (if 0 \<le> ndigits
      then of_int (round_half_even (x * 10 ^ nat ndigits)) / 10 ^ nat ndigits
      else of_int (round_half_even (x / 10 ^ nat (- ndigits))) * 10 ^ nat (- ndigits))"

text \<open>\<open>max(xs)\<close> raises \<open>ValueError\<close> on an empty sequence.\<close>

fun max_py :: "rat list \<Rightarrow> error + rat" where
  "max_py [] = Inl ValueError"
| "max_py (x # xs) = Inr (fold max xs x)"

text \<open>
  \<open>statistics.median\<close>: sorts the data, raises \<open>StatisticsError\<close> when there is none,
  returns the middle element of an odd number of values and the mean of the two middle
  elements of an even number.
\<close>

definition median :: "rat list \<Rightarrow> error + rat" where
  "median xs =
     (let data = sort xs; n = length data
      in if n = 0 then Inl StatisticsError
         else if n mod 2 = 1 then Inr (data ! (n div 2))
         else Inr ((data ! (n div 2 - 1) + data ! (n div 2)) / 2))"

text \<open>The slice \<open>xs[:k]\<close>; a negative \<open>k\<close> counts from the end.\<close>

definition slice_to :: "'a list \<Rightarrow> int \<Rightarrow> 'a list" where
  "slice_to xs k = (if 0 \<le> k then take (nat k) xs else take (length xs - nat (- k)) xs)"

section \<open>summarize_report\<close>

text \<open>
  Lines 142 to 145.  \<open>sorted\<close> is stable and ascending; the selected value objects are
  given by their positions in \<open>report.values()\<close>; \<open>sz\<close> is the parameter \<open>size\<close>.
\<close>

definition top_reports :: "report_dict \<Rightarrow> int \<Rightarrow> nat list" where
  "top_reports report sz =
     (let top_reports_size = (if sz < int (length report) then sz else int (length report))
      in slice_to (sort_key (\<lambda>i. time_sum (snd (report ! i))) [0..<length report])
           top_reports_size)"

text \<open>
  Lines 147 to 163, the body of the loop for one \<open>url_report\<close>.  \<open>pop\<close> raises
  \<open>KeyError\<close> when \<open>requests\<close> is absent; each division raises \<open>ZeroDivisionError\<close> on
  a zero divisor, in the order in which the dictionary display evaluates them.
\<close>

definition summarize_url_report :: "url_report \<Rightarrow> nat \<Rightarrow> rat \<Rightarrow> int \<Rightarrow> error + url_report" where
  "summarize_url_report url_report total_requests total_requests_time accuracy =
     (case requests url_report of
        None \<Rightarrow> Inl KeyError
      | Some url_requests \<Rightarrow>
          if total_requests = 0 then Inl ZeroDivisionError
          else if total_requests_time = 0 then Inl ZeroDivisionError
          else if count url_report = 0 then Inl ZeroDivisionError
          else (case max_py url_requests of
                  Inl e \<Rightarrow> Inl e
                | Inr mx \<Rightarrow>
                    (case median url_requests of
                       Inl e \<Rightarrow> Inl e
                     | Inr md \<Rightarrow>
                         Inr (url_report
                           \<lparr>requests := None,
                            count_perc := Some (round_py
                              (100 * of_nat (count url_report) / of_nat total_requests) accuracy),
                            time_perc := Some (round_py
                              (100 * time_sum url_report / total_requests_time) accuracy),
                            time_avg := Some (round_py
                              (time_sum url_report / of_nat (count url_report)) accuracy),
                            time_max := Some mx,
                            time_med := Some md\<rparr>))))"

text \<open>
  The loop of lines 146 to 163 over the selected objects: each is updated in place in
  the dictionary.  An exception leaves the loop; \<open>create_report\<close> does not catch it, so
  the dictionary is not returned then.
\<close>

fun summarize_loop :: "nat list \<Rightarrow> report_dict \<Rightarrow> nat \<Rightarrow> rat \<Rightarrow> int \<Rightarrow> error + report_dict" where
  "summarize_loop [] report total_requests total_requests_time accuracy = Inr report"
| "summarize_loop (i # rest) report total_requests total_requests_time accuracy =
     (case summarize_url_report (snd (report ! i)) total_requests total_requests_time accuracy of
        Inl e \<Rightarrow> Inl e
      | Inr url_report \<Rightarrow>
          summarize_loop rest (report[i := (fst (report ! i), url_report)])
            total_requests total_requests_time accuracy)"

text \<open>
  \<open>summarize_report\<close> returns the list of the selected objects; the second component
  is the dictionary as the call leaves it.
\<close>

definition summarize_report ::
  "report_dict \<Rightarrow> nat \<Rightarrow> rat \<Rightarrow> int \<Rightarrow> int \<Rightarrow> error + (url_report list \<times> report_dict)" where
  "summarize_report report total_requests total_requests_time sz accuracy =
     (let top = top_reports report sz
      in case summarize_loop top report total_requests total_requests_time accuracy of
           Inl e \<Rightarrow> Inl e
         | Inr report' \<Rightarrow> Inr (map (\<lambda>i. snd (report' ! i)) top, report'))"

section \<open>create_report\<close>

text \<open>Lines 131 to 137; the debug message is not modelled.\<close>

definition parse_line :: "string \<Rightarrow> pattern \<Rightarrow> (string \<rightharpoonup> string) option" where
  "parse_line line pattern = (case pattern line of Some groupdict \<Rightarrow> Some groupdict | None \<Rightarrow> None)"

text \<open>
  Lines 173 to 176, the body of the \<open>try\<close>.  Subscripting \<open>None\<close> raises \<open>TypeError\<close>,
  a missing group \<open>KeyError\<close>, and \<open>float\<close> raises \<open>ValueError\<close> on a string that is
  not a number: \<open>to_float\<close> stands for the built-in \<open>float\<close>, \<open>None\<close> for its
  \<open>ValueError\<close>.
\<close>

definition parse_request ::
  "(string \<Rightarrow> rat option) \<Rightarrow> string \<Rightarrow> pattern \<Rightarrow> error + (string \<times> rat)" where
  "parse_request to_float line pattern =
     (case parse_line line pattern of
        None \<Rightarrow> Inl TypeError
      | Some request \<Rightarrow>
          (case request ''remote_addr'' of
             None \<Rightarrow> Inl KeyError
           | Some u \<Rightarrow>
               (case request ''request_time'' of
                  None \<Rightarrow> Inl KeyError
                | Some s \<Rightarrow>
                    (case to_float s of
                       None \<Rightarrow> Inl ValueError
                     | Some request_time \<Rightarrow> Inr (u, request_time)))))"

text \<open>
  Lines 180 to 186 on the dictionary.  \<open>report[url]\<close> creates an empty entry for a new
  key, at the end of the dictionary.  The condition of line 180 is
  \<open>'url' and ('requests' not in report[url])\<close>, that is \<open>'requests' not in report[url]\<close>.
\<close>

definition add_request :: "report_dict \<Rightarrow> string \<Rightarrow> rat \<Rightarrow> int \<Rightarrow> report_dict" where
  "add_request report u request_time accuracy =
     (let e0 = (case map_of report u of None \<Rightarrow> empty_url_report | Some e \<Rightarrow> e);
          e1 = (case requests e0 of
                  None \<Rightarrow> e0\<lparr>url := Some u, requests := Some []\<rparr>
                | Some _ \<Rightarrow> e0);
          e2 = e1\<lparr>count := count e1 + 1\<rparr>;
          e3 = e2\<lparr>time_sum := round_py (time_sum e2 + request_time) accuracy\<rparr>;
          e4 = e3\<lparr>requests := map_option (\<lambda>rs. rs @ [request_time]) (requests e3)\<rparr>
      in AList.update u e4 report)"

text \<open>The local variables of \<open>create_report\<close>.\<close>

record locals =
  report :: report_dict
  total_requests :: nat
  total_requests_time :: rat
  total_errors :: nat

definition initial :: locals where
  "initial = \<lparr>report = [], total_requests = 0, total_requests_time = 0, total_errors = 0\<rparr>"

text \<open>
  The loop of lines 170 to 189.  The \<open>except\<close> clause catches \<open>ValueError\<close> and
  \<open>KeyError\<close> only, counts the error and leaves the loop with \<open>break\<close>; any other
  exception leaves \<open>create_report\<close>.
\<close>

fun process_lines ::
  "(string \<Rightarrow> rat option) \<Rightarrow> pattern \<Rightarrow> int \<Rightarrow> string list \<Rightarrow> locals \<Rightarrow> error + locals" where
  "process_lines to_float pattern accuracy [] st = Inr st"
| "process_lines to_float pattern accuracy (line # rest) st =
     (let st1 = st\<lparr>total_requests := total_requests st + 1\<rparr>
      in case parse_request to_float line pattern of
           Inl e \<Rightarrow>
             if e = ValueError \<or> e = KeyError
             then Inr (st1\<lparr>total_errors := total_errors st1 + 1\<rparr>)
             else Inl e
         | Inr (u, request_time) \<Rightarrow>
             process_lines to_float pattern accuracy rest
               (st1\<lparr>report := add_request (report st1) u request_time accuracy,
                    total_requests_time :=
                      round_py (total_requests_time st1 + request_time) accuracy\<rparr>))"

text \<open>
  \<open>create_report\<close>, on the decoded lines that \<open>read_file(file_path)\<close> yields.
\<close>

definition create_report ::
  "(string \<Rightarrow> rat option) \<Rightarrow> string list \<Rightarrow> pattern \<Rightarrow> int \<Rightarrow> int \<Rightarrow> error + Report" where
  "create_report to_float lines pattern report_size accuracy =
     (case process_lines to_float pattern accuracy lines initial of
        Inl e \<Rightarrow> Inl e
      | Inr st \<Rightarrow>
          (case summarize_report (report st) (total_requests st) (total_requests_time st)
                  report_size accuracy of
             Inl e \<Rightarrow> Inl e
           | Inr (rows, report') \<Rightarrow> Inr (Report rows (total_requests st) (total_errors st))))"

section \<open>The pattern LOG_LINE_PATTERN\<close>

text \<open>
  Lines 28 to 42.  The regular expression is a sequence of repeated character classes
  with named groups around some of them.  \<open>pattern.match\<close> anchors the match at the
  start of the line only and searches by backtracking: a greedy repetition tries the
  longest run first, a lazy one the shortest.  Characters are code points below 256.
\<close>

datatype atom = Digit | Space | NonSpace | Dot | Lit char

text \<open>The code points below 256 that \<open>\s\<close> matches in a \<open>str\<close> pattern.\<close>

definition whitespace :: "char list" where
  "whitespace = [CHR 0x20, CHR 0x09, CHR 0x0A, CHR 0x0B, CHR 0x0C, CHR 0x0D,
                 CHR 0x1C, CHR 0x1D, CHR 0x1E, CHR 0x1F, CHR 0x85, CHR 0xA0]"

fun in_atom :: "atom \<Rightarrow> char \<Rightarrow> bool" where
  "in_atom Digit c = (c \<in> set ''0123456789'')"
| "in_atom Space c = (c \<in> set whitespace)"
| "in_atom NonSpace c = (c \<notin> set whitespace)"
| "in_atom Dot c = (c \<noteq> CHR 0x0A)"
| "in_atom (Lit d) c = (c = d)"

datatype quant = Greedy | Lazy

text \<open>
  \<open>Rep a lo hi q\<close> is the class \<open>a\<close> repeated \<open>lo\<close> to \<open>hi\<close> times (\<open>None\<close>: no upper
  bound); \<open>Begin n\<close> and \<open>End n\<close> delimit the group named \<open>n\<close>.
\<close>

datatype elem = Rep atom nat "nat option" quant | Begin string | End string

text \<open>The numbers of repetitions to try at the head of \<open>s\<close>, in the order of the search.\<close>

definition candidates :: "atom \<Rightarrow> nat \<Rightarrow> nat option \<Rightarrow> quant \<Rightarrow> string \<Rightarrow> nat list" where
  "candidates a lo hi q s =
     (let run = length (takeWhile (in_atom a) s);
          m = (case hi of None \<Rightarrow> run | Some h \<Rightarrow> min h run)
      in case q of Greedy \<Rightarrow> rev [lo..<Suc m] | Lazy \<Rightarrow> [lo..<Suc m])"

text \<open>
  The backtracking search: \<open>seen\<close> is the part of the line matched so far, \<open>rest\<close> what
  follows it, \<open>starts\<close> the text seen when each group was opened and \<open>groups\<close> the
  text of the groups closed so far.
\<close>

fun match_elems ::
    "elem list \<Rightarrow> string \<Rightarrow> string \<Rightarrow> (string \<times> string) list \<Rightarrow> (string \<times> string) list
       \<Rightarrow> (string \<times> string) list option"
  and try_counts ::
    "nat list \<Rightarrow> elem list \<Rightarrow> string \<Rightarrow> string \<Rightarrow> (string \<times> string) list
       \<Rightarrow> (string \<times> string) list \<Rightarrow> (string \<times> string) list option" where
  "match_elems [] seen rest starts groups = Some groups"
| "match_elems (Begin n # es) seen rest starts groups =
     match_elems es seen rest ((n, seen) # starts) groups"
| "match_elems (End n # es) seen rest starts groups =
     (case map_of starts n of
        None \<Rightarrow> None
      | Some b \<Rightarrow> match_elems es seen rest starts ((n, drop (length b) seen) # groups))"
| "match_elems (Rep a lo hi q # es) seen rest starts groups =
     try_counts (candidates a lo hi q rest) es seen rest starts groups"
| "try_counts [] es seen rest starts groups = None"
| "try_counts (k # ks) es seen rest starts groups =
     (case match_elems es (seen @ take k rest) (drop k rest) starts groups of
        Some g \<Rightarrow> Some g
      | None \<Rightarrow> try_counts ks es seen rest starts groups)"

definition single :: "char \<Rightarrow> elem" where
  "single c = Rep (Lit c) 1 (Some 1) Greedy"

definition one_or_more :: "atom \<Rightarrow> elem" where
  "one_or_more a = Rep a 1 None Greedy"

text \<open>A field \<open>"(?P<n>.+)"\s+\<close>.\<close>

definition quoted :: "string \<Rightarrow> elem list" where
  "quoted n = [single CHR 0x22, Begin n, one_or_more Dot, End n, single CHR 0x22,
               one_or_more Space]"

definition LOG_LINE_PATTERN_elems :: "elem list" where
  "LOG_LINE_PATTERN_elems =
     [Begin ''remote_addr'',
      Rep Digit 1 (Some 3) Greedy, single CHR ''.'', Rep Digit 1 (Some 3) Greedy,
      single CHR ''.'', Rep Digit 1 (Some 3) Greedy, single CHR ''.'',
      Rep Digit 1 (Some 3) Greedy,
      End ''remote_addr'', Rep Space 1 (Some 1) Greedy,
      Begin ''remote_user'', one_or_more NonSpace, End ''remote_user'', one_or_more Space,
      Begin ''http_x_real_ip'', one_or_more NonSpace, End ''http_x_real_ip'',
      one_or_more Space,
      single CHR ''['', Begin ''time_local'', one_or_more Dot, End ''time_local'',
      single CHR '']'', one_or_more Space,
      single CHR 0x22, Begin ''request'', Rep Dot 0 None Lazy, End ''request'',
      single CHR 0x22, one_or_more Space,
      Begin ''status'', Rep Digit 3 (Some 3) Greedy, End ''status'', one_or_more Space,
      Begin ''body_bytes_sent'', one_or_more Digit, End ''body_bytes_sent'',
      one_or_more Space]
     @ quoted ''http_referer'' @ quoted ''http_user_agent''
     @ quoted ''http_x_forwarded_for'' @ quoted ''http_X_REQUEST_ID''
     @ quoted ''http_X_RB_USER''
     @ [Begin ''request_time'', one_or_more Dot, End ''request_time'']"

definition LOG_LINE_PATTERN :: pattern where
  "LOG_LINE_PATTERN line =
     map_option map_of (match_elems LOG_LINE_PATTERN_elems [] line [] [])"

section \<open>Example inputs\<close>

text \<open>
  The built-in \<open>float\<close> on plain decimal literals: an optional sign, then digits with
  an optional point.  On every other string the result is \<open>None\<close>; of those, the
  examples below use only \<open>-\<close>, on which \<open>float\<close> raises \<open>ValueError\<close>.
\<close>

definition digit_value :: "char \<Rightarrow> nat option" where
  "digit_value c =
     map_of [(CHR ''0'', 0), (CHR ''1'', 1), (CHR ''2'', 2), (CHR ''3'', 3), (CHR ''4'', 4),
             (CHR ''5'', 5), (CHR ''6'', 6), (CHR ''7'', 7), (CHR ''8'', 8), (CHR ''9'', 9)] c"

fun digits_value :: "string \<Rightarrow> nat \<Rightarrow> nat option" where
  "digits_value [] n = Some n"
| "digits_value (c # cs) n =
     (case digit_value c of None \<Rightarrow> None | Some d \<Rightarrow> digits_value cs (10 * n + d))"

definition decimal_float :: "string \<Rightarrow> rat option" where
  "decimal_float s =
     (let negative = (case s of [] \<Rightarrow> False | c # r \<Rightarrow> c = CHR ''-'');
          body = (case s of [] \<Rightarrow> [] | c # r \<Rightarrow> if c = CHR ''-'' \<or> c = CHR ''+'' then r else s);
          ip = takeWhile (\<lambda>c. c \<noteq> CHR ''.'') body;
          fp = drop (Suc (length ip)) body
      in if ip @ fp = [] then None
         else (case digits_value (ip @ fp) 0 of
                 None \<Rightarrow> None
               | Some n \<Rightarrow>
                   Some ((if negative then - 1 else 1) * of_nat n / 10 ^ length fp)))"

text \<open>
  Log lines.  The fields after the address are
  \<open>- - [t] "GET /a" 200 1 "-" "-" "-" "-" "-"\<close>, followed by the request time.
\<close>

definition fields :: string where
  "fields = '' - - [t] '' @ [CHR 0x22] @ ''GET /a'' @ [CHR 0x22] @ '' 200 1 ''
     @ concat (replicate 5 [CHR 0x22, CHR ''-'', CHR 0x22, CHR '' ''])"

definition line_a :: string where
  "line_a = ''1.1.1.1'' @ fields @ ''0.5''"

definition line_b :: string where
  "line_b = ''2.2.2.2'' @ fields @ ''0.125''"

definition line_dash :: string where
  "line_dash = ''3.3.3.3'' @ fields @ ''-''"

definition line_garbage :: string where
  "line_garbage = ''garbage''"

text \<open>The aggregates of \<open>line_a\<close> and \<open>line_b\<close> at accuracy 3, and the state after both.\<close>

definition entry_a :: url_report where
  "entry_a = empty_url_report
     \<lparr>url := Some ''1.1.1.1'', requests := Some [1 / 2], count := 1, time_sum := 1 / 2\<rparr>"

definition entry_b :: url_report where
  "entry_b = empty_url_report
     \<lparr>url := Some ''2.2.2.2'', requests := Some [1 / 8], count := 1, time_sum := 1 / 8\<rparr>"

definition state_ab :: locals where
  "state_ab = \<lparr>report = [(''1.1.1.1'', entry_a), (''2.2.2.2'', entry_b)],
                total_requests = 2, total_requests_time = 5 / 8, total_errors = 0\<rparr>"

text \<open>The rows of the two aggregates when they are summarized together.\<close>

definition row_a :: url_report where
  "row_a = entry_a
     \<lparr>requests := None, count_perc := Some 50, time_perc := Some 80,
      time_avg := Some (1 / 2), time_max := Some (1 / 2), time_med := Some (1 / 2)\<rparr>"

definition row_b :: url_report where
  "row_b = entry_b
     \<lparr>requests := None, count_perc := Some 50, time_perc := Some 20,
      time_avg := Some (1 / 8), time_max := Some (1 / 8), time_med := Some (1 / 8)\<rparr>"

text \<open>The state after \<open>line_b\<close> and a line that is counted as an error.\<close>

definition state_b_error :: locals where
  "state_b_error = \<lparr>report = [(''2.2.2.2'', entry_b)],
                     total_requests = 2, total_requests_time = 1 / 8, total_errors = 1\<rparr>"

definition row_b_alone :: url_report where
  "row_b_alone = entry_b
     \<lparr>requests := None, count_perc := Some 50, time_perc := Some 100,
      time_avg := Some (1 / 8), time_max := Some (1 / 8), time_med := Some (1 / 8)\<rparr>"

text \<open>The row of \<open>line_b\<close> alone at accuracy 1.\<close>

definition row_b_acc1 :: url_report where
  "row_b_acc1 =
     \<lparr>url = Some ''2.2.2.2'', requests = None, count = 1, time_sum = 1 / 10,
      count_perc = Some 100, time_perc = Some 100, time_avg = Some (1 / 10),
      time_max = Some (1 / 8), time_med = Some (1 / 8)\<rparr>"

text \<open>The state after \<open>line_b\<close>, \<open>line_a\<close> and \<open>line_b\<close> again, at accuracy 3.\<close>

definition entry_b2 :: url_report where
  "entry_b2 = empty_url_report
     \<lparr>url := Some ''2.2.2.2'', requests := Some [1 / 8, 1 / 8], count := 2,
      time_sum := 1 / 4\<rparr>"

definition state_bab :: locals where
  "state_bab = \<lparr>report = [(''2.2.2.2'', entry_b2), (''1.1.1.1'', entry_a)],
                 total_requests = 3, total_requests_time = 3 / 4, total_errors = 0\<rparr>"

text \<open>
  The state after \<open>line_b\<close> alone at accuracy 1, and the row of the aggregate
  \<open>entry_b\<close>, whose \<open>time_sum\<close> is 0.125, when it is summarized at accuracy 1.
\<close>

definition state_b_acc1 :: locals where
  "state_b_acc1 = \<lparr>report = [(''2.2.2.2'', entry_b\<lparr>time_sum := 1 / 10\<rparr>)],
                    total_requests = 1, total_requests_time = 1 / 10, total_errors = 0\<rparr>"

definition row_b_raw :: url_report where
  "row_b_raw = entry_b
     \<lparr>requests := None, count_perc := Some 100, time_perc := Some 100,
      time_avg := Some (1 / 10), time_max := Some (1 / 8), time_med := Some (1 / 8)\<rparr>"

text \<open>An aggregate whose only duration is \<open>0\<close>.\<close>

definition entry_zero :: url_report where
  "entry_zero = empty_url_report
     \<lparr>url := Some ''1.1.1.1'', requests := Some [0], count := 1, time_sum := 0\<rparr>"

section \<open>Specification-side notions\<close>

text \<open>
  The rounded running sum of a sequence of durations: every addition is followed by
  rounding to \<open>accuracy\<close> places, starting from \<open>0\<close>.
\<close>

definition running_sum :: "int \<Rightarrow> rat list \<Rightarrow> rat" where
  "running_sum accuracy ts = foldl (\<lambda>s d. round_py (s + d) accuracy) 0 ts"

text \<open>
  The additions that the loop of \<open>create_report\<close> performs on a file: the key and
  duration of every line before the first line on which the \<open>try\<close> body raises.
\<close>

fun additions :: "(string \<Rightarrow> rat option) \<Rightarrow> pattern \<Rightarrow> string list \<Rightarrow> (string \<times> rat) list" where
  "additions to_float pattern [] = []"
| "additions to_float pattern (line # rest) =
     (case parse_request to_float line pattern of
        Inl e \<Rightarrow> []
      | Inr ut \<Rightarrow> ut # additions to_float pattern rest)"

text \<open>The durations added for one key, in order of arrival.\<close>

definition durations :: "string \<Rightarrow> (string \<times> rat) list \<Rightarrow> rat list" where
  "durations k adds = map snd (filter (\<lambda>ut. fst ut = k) adds)"

text \<open>A value is rounded to \<open>accuracy\<close> places when rounding leaves it as it is.\<close>

definition rounded :: "int \<Rightarrow> rat \<Rightarrow> bool" where
  "rounded accuracy v \<longleftrightarrow> round_py v accuracy = v"

text \<open>The entry that \<open>add_request\<close> stores under the key.\<close>

definition added_entry :: "report_dict \<Rightarrow> string \<Rightarrow> rat \<Rightarrow> int \<Rightarrow> url_report" where
  "added_entry rep u t acc =
     (case map_of rep u of
        None \<Rightarrow> empty_url_report\<lparr>url := Some u, count := 1,
                  time_sum := round_py (0 + t) acc, requests := Some [t]\<rparr>
      | Some e \<Rightarrow>
          (case requests e of
             None \<Rightarrow> e\<lparr>url := Some u, count := count e + 1,
                      time_sum := round_py (time_sum e + t) acc, requests := Some [t]\<rparr>
           | Some rs \<Rightarrow> e\<lparr>count := count e + 1,
                      time_sum := round_py (time_sum e + t) acc, requests := Some (rs @ [t])\<rparr>))"

text \<open>The aggregate of a key after a sequence of additions to the empty dictionary.\<close>

definition aggregate_of :: "int \<Rightarrow> string \<Rightarrow> rat list \<Rightarrow> url_report" where
  "aggregate_of acc k ds =
     empty_url_report\<lparr>url := Some k, count := length ds, time_sum := running_sum acc ds,
       requests := Some ds\<rparr>"

section \<open>Rounding\<close>

lemma round_half_even_of_int: "round_half_even (of_int k) = k"
  by (simp add: round_half_even_def)

lemma round_py_idem: "round_py (round_py x n) n = round_py x n"
  by (simp add: round_py_def round_half_even_of_int)

lemma rounded_round_py: "rounded n (round_py x n)"
  by (simp add: rounded_def round_py_idem)

section \<open>The accumulation loop\<close>

lemma set_update_subset: "set (AList.update k v al) \<subseteq> insert (k, v) (set al)"
  by (induction al) auto

lemma sum_count_update:
  "sum_list (map (\<lambda>p. count (snd p)) (AList.update k v al))
     + (case map_of al k of None \<Rightarrow> 0 | Some e \<Rightarrow> count e)
   = sum_list (map (\<lambda>p. count (snd p)) al) + count v"
  by (induction al) auto

lemma add_request_eq: "add_request rep u t acc = AList.update u (added_entry rep u t acc) rep"
  by (simp add: add_request_def added_entry_def Let_def empty_url_report_def split: option.splits)

lemma sum_count_add_request:
  "sum_list (map (\<lambda>p. count (snd p)) (add_request rep u t acc))
   = sum_list (map (\<lambda>p. count (snd p)) rep) + 1"
proof -
  have "count (added_entry rep u t acc) = (case map_of rep u of None \<Rightarrow> 0 | Some e \<Rightarrow> count e) + 1"
    by (simp add: added_entry_def empty_url_report_def split: option.splits)
  with sum_count_update [of u "added_entry rep u t acc" rep] show ?thesis
    by (simp add: add_request_eq)
qed

lemma process_lines_counters:
  "process_lines f p acc lines st = Inr st' \<Longrightarrow>
   total_requests st = total_errors st + sum_list (map (\<lambda>p. count (snd p)) (report st)) \<Longrightarrow>
   total_requests st' = total_errors st' + sum_list (map (\<lambda>p. count (snd p)) (report st'))"
proof (induction lines arbitrary: st)
  case Nil
  then show ?case by simp
next
  case (Cons line rest)
  show ?case
  proof (cases "parse_request f line p")
    case (Inl e)
    with Cons.prems show ?thesis
      by (auto simp: Let_def split: if_splits)
  next
    case (Inr ut)
    obtain u t where ut: "ut = (u, t)" by (cases ut)
    let ?st2 = "st\<lparr>total_requests := total_requests st + 1,
        report := add_request (report st) u t acc,
        total_requests_time := round_py (total_requests_time st + t) acc\<rparr>"
    from Cons.prems(1) Inr ut have "process_lines f p acc rest ?st2 = Inr st'"
      by (simp add: Let_def)
    moreover have "total_requests ?st2
        = total_errors ?st2 + sum_list (map (\<lambda>p. count (snd p)) (report ?st2))"
      using Cons.prems(2) by (simp add: sum_count_add_request)
    ultimately show ?thesis by (rule Cons.IH)
  qed
qed

lemma process_lines_errors:
  "process_lines f p acc lines st = Inr st' \<Longrightarrow> total_errors st' \<le> total_errors st + 1"
proof (induction lines arbitrary: st)
  case Nil
  then show ?case by simp
next
  case (Cons line rest)
  show ?case
  proof (cases "parse_request f line p")
    case (Inl e)
    with Cons.prems show ?thesis
      by (auto simp: Let_def split: if_splits)
  next
    case (Inr ut)
    obtain u t where ut: "ut = (u, t)" by (cases ut)
    let ?st2 = "st\<lparr>total_requests := total_requests st + 1,
        report := add_request (report st) u t acc,
        total_requests_time := round_py (total_requests_time st + t) acc\<rparr>"
    from Cons.prems(1) Inr ut have "process_lines f p acc rest ?st2 = Inr st'"
      by (simp add: Let_def)
    from Cons.IH [OF this] show ?thesis by simp
  qed
qed

lemma process_lines_report:
  "process_lines f p acc lines st = Inr st' \<Longrightarrow>
   report st' = foldl (\<lambda>r ut. add_request r (fst ut) (snd ut) acc) (report st) (additions f p lines)"
proof (induction lines arbitrary: st)
  case Nil
  then show ?case by simp
next
  case (Cons line rest)
  show ?case
  proof (cases "parse_request f line p")
    case (Inl e)
    with Cons.prems show ?thesis
      by (auto simp: Let_def split: if_splits)
  next
    case (Inr ut)
    obtain u t where ut: "ut = (u, t)" by (cases ut)
    let ?st2 = "st\<lparr>total_requests := total_requests st + 1,
        report := add_request (report st) u t acc,
        total_requests_time := round_py (total_requests_time st + t) acc\<rparr>"
    from Cons.prems(1) Inr ut have "process_lines f p acc rest ?st2 = Inr st'"
      by (simp add: Let_def)
    from Cons.IH [OF this] show ?thesis using Inr ut by simp
  qed
qed

lemma running_sum_snoc: "running_sum acc (ds @ [t]) = round_py (running_sum acc ds + t) acc"
  by (simp add: running_sum_def)

lemma map_of_additions:
  "map_of (foldl (\<lambda>r ut. add_request r (fst ut) (snd ut) acc) [] adds) k
   = (if durations k adds = [] then None else Some (aggregate_of acc k (durations k adds)))"
proof (induction adds rule: rev_induct)
  case Nil
  then show ?case by (simp add: durations_def)
next
  case (snoc ut adds)
  obtain u t where ut: "ut = (u, t)" by (cases ut)
  let ?rep = "foldl (\<lambda>r ut. add_request r (fst ut) (snd ut) acc) [] adds"
  have step: "map_of (add_request ?rep u t acc) k
      = (if k = u then Some (added_entry ?rep u t acc) else map_of ?rep k)"
    by (simp add: add_request_eq update_conv')
  show ?case
  proof (cases "k = u")
    case False
    then have "durations k (adds @ [ut]) = durations k adds"
      by (simp add: durations_def ut)
    with step False snoc.IH show ?thesis by (simp add: ut)
  next
    case True
    have d: "durations k (adds @ [ut]) = durations k adds @ [t]"
      using True by (simp add: durations_def ut)
    have "added_entry ?rep u t acc = aggregate_of acc k (durations k adds @ [t])"
      using snoc.IH True
      by (auto simp: added_entry_def aggregate_of_def running_sum_snoc empty_url_report_def
            running_sum_def)
    with step True d show ?thesis by (simp add: ut)
  qed
qed

lemma distinct_additions:
  "distinct (map fst (foldl (\<lambda>r ut. add_request r (fst ut) (snd ut) acc) [] adds))"
  by (induction adds rule: rev_induct) (simp_all add: add_request_eq distinct_update)

section \<open>The summarizer\<close>

lemma top_reports_distinct: "distinct (top_reports rep sz)"
  by (simp add: top_reports_def slice_to_def Let_def)

lemma top_reports_range: "i \<in> set (top_reports rep sz) \<Longrightarrow> i < length rep"
  by (auto simp: top_reports_def slice_to_def Let_def dest!: in_set_takeD split: if_splits)

lemma sort_key_cong_set:
  "(\<And>x. x \<in> set xs \<Longrightarrow> f x = g x) \<Longrightarrow> sort_key f xs = sort_key g xs"
proof (induction xs)
  case Nil
  then show ?case by simp
next
  case (Cons x xs)
  have ins: "\<And>ys. set ys \<subseteq> set xs \<Longrightarrow> insort_key f x ys = insort_key g x ys"
  proof -
    fix ys show "set ys \<subseteq> set xs \<Longrightarrow> insort_key f x ys = insort_key g x ys"
      using Cons.prems by (induction ys) auto
  qed
  from Cons have "sort_key f xs = sort_key g xs" by simp
  with ins [of "sort_key g xs"] show ?case by simp
qed

lemma summarize_url_report_keeps:
  "summarize_url_report e tr tt acc = Inr e' \<Longrightarrow>
   time_sum e' = time_sum e \<and> count e' = count e \<and> url e' = url e \<and> requests e' = None"
  by (auto simp: summarize_url_report_def split: option.splits if_splits sum.splits)

lemma summarize_loop_effect:
  "summarize_loop is rep tr tt acc = Inr rep' \<Longrightarrow> distinct is \<Longrightarrow>
   (\<And>i. i \<in> set is \<Longrightarrow> i < length rep) \<Longrightarrow>
   length rep' = length rep \<and>
   (\<forall>i \<in> set is. summarize_url_report (snd (rep ! i)) tr tt acc = Inr (snd (rep' ! i))) \<and>
   (\<forall>i. i \<notin> set is \<longrightarrow> rep' ! i = rep ! i) \<and>
   (\<forall>i < length rep. fst (rep' ! i) = fst (rep ! i))"
proof (induction "is" arbitrary: rep)
  case Nil
  then show ?case by simp
next
  case (Cons i rest)
  from Cons.prems(1) obtain e where
    e: "summarize_url_report (snd (rep ! i)) tr tt acc = Inr e" and
    loop: "summarize_loop rest (rep[i := (fst (rep ! i), e)]) tr tt acc = Inr rep'"
    by (auto split: sum.splits)
  let ?rep1 = "rep[i := (fst (rep ! i), e)]"
  have i: "i < length rep" "i \<notin> set rest" "distinct rest"
    using Cons.prems by auto
  have rng: "\<And>j. j \<in> set rest \<Longrightarrow> j < length ?rep1"
    using Cons.prems(3) by simp
  note IH = Cons.IH [OF loop i(3) rng]
  have len: "length rep' = length rep" using IH by simp
  have at_i: "rep' ! i = (fst (rep ! i), e)"
    using IH i by simp
  have sel: "\<forall>j \<in> set (i # rest). summarize_url_report (snd (rep ! j)) tr tt acc = Inr (snd (rep' ! j))"
  proof
    fix j assume j: "j \<in> set (i # rest)"
    show "summarize_url_report (snd (rep ! j)) tr tt acc = Inr (snd (rep' ! j))"
    proof (cases "j = i")
      case True
      with e at_i show ?thesis by simp
    next
      case False
      with j have "j \<in> set rest" by simp
      with IH have "summarize_url_report (snd (?rep1 ! j)) tr tt acc = Inr (snd (rep' ! j))"
        by blast
      with False show ?thesis by simp
    qed
  qed
  have other: "\<forall>j. j \<notin> set (i # rest) \<longrightarrow> rep' ! j = rep ! j"
    using IH by auto
  have keys: "\<forall>j < length rep. fst (rep' ! j) = fst (rep ! j)"
  proof (intro allI impI)
    fix j assume "j < length rep"
    then have "fst (rep' ! j) = fst (?rep1 ! j)" using IH by simp
    also have "\<dots> = fst (rep ! j)" using i(1) by (cases "j = i") simp_all
    finally show "fst (rep' ! j) = fst (rep ! j)" .
  qed
  from len sel other keys show ?case by blast
qed

lemma summarize_report_effect:
  assumes "summarize_report rep tr tt sz acc = Inr (rows, rep')"
  shows "length rep' = length rep"
    and "rows = map (\<lambda>i. snd (rep' ! i)) (top_reports rep sz)"
    and "\<And>i. i \<in> set (top_reports rep sz) \<Longrightarrow>
          summarize_url_report (snd (rep ! i)) tr tt acc = Inr (snd (rep' ! i))"
    and "\<And>i. i \<notin> set (top_reports rep sz) \<Longrightarrow> rep' ! i = rep ! i"
    and "\<And>i. i < length rep \<Longrightarrow> fst (rep' ! i) = fst (rep ! i)"
proof -
  from assms have loop: "summarize_loop (top_reports rep sz) rep tr tt acc = Inr rep'"
    and rows: "rows = map (\<lambda>i. snd (rep' ! i)) (top_reports rep sz)"
    by (auto simp: summarize_report_def Let_def split: sum.splits)
  have rng: "\<And>i. i \<in> set (top_reports rep sz) \<Longrightarrow> i < length rep"
    by (rule top_reports_range)
  note eff = summarize_loop_effect [OF loop top_reports_distinct rng]
  show "length rep' = length rep" using eff by simp
  show "rows = map (\<lambda>i. snd (rep' ! i)) (top_reports rep sz)" by (rule rows)
  show "\<And>i. i \<in> set (top_reports rep sz) \<Longrightarrow>
          summarize_url_report (snd (rep ! i)) tr tt acc = Inr (snd (rep' ! i))"
    using eff by blast
  show "\<And>i. i \<notin> set (top_reports rep sz) \<Longrightarrow> rep' ! i = rep ! i"
    using eff by blast
  show "\<And>i. i < length rep \<Longrightarrow> fst (rep' ! i) = fst (rep ! i)"
    using eff by blast
qed

lemma summarize_report_time_sum:
  assumes "summarize_report rep tr tt sz acc = Inr (rows, rep')"
  shows "time_sum (snd (rep' ! i)) = time_sum (snd (rep ! i))"
proof (cases "i \<in> set (top_reports rep sz)")
  case True
  from summarize_report_effect(3) [OF assms True] show ?thesis
    by (simp add: summarize_url_report_keeps)
next
  case False
  from summarize_report_effect(4) [OF assms False] show ?thesis by simp
qed

lemma top_reports_after:
  assumes "summarize_report rep tr tt sz acc = Inr (rows, rep')"
  shows "top_reports rep' sz = top_reports rep sz"
proof -
  have len: "length rep' = length rep" by (rule summarize_report_effect(1) [OF assms])
  have "sort_key (\<lambda>i. time_sum (snd (rep' ! i))) [0..<length rep]
      = sort_key (\<lambda>i. time_sum (snd (rep ! i))) [0..<length rep]"
    by (rule sort_key_cong_set) (simp add: summarize_report_time_sum [OF assms])
  with len show ?thesis by (simp add: top_reports_def)
qed

lemma summarize_report_nil:
  "top_reports rep sz = [] \<Longrightarrow> summarize_report rep tr tt sz acc = Inr ([], rep)"
  by (simp add: summarize_report_def)

lemma summarize_report_first:
  assumes "top_reports rep sz = i # rest"
    and "summarize_url_report (snd (rep ! i)) tr tt acc = Inl e"
  shows "summarize_report rep tr tt sz acc = Inl e"
  using assms by (simp add: summarize_report_def)

lemma max_py_Inr: "max_py ts = Inr mx \<Longrightarrow> ts \<noteq> [] \<and> mx = Max (set ts)"
proof (cases ts)
  case Nil
  assume "max_py ts = Inr mx"
  with Nil show ?thesis by simp
next
  case (Cons x xs)
  assume "max_py ts = Inr mx"
  with Cons have "mx = fold max xs x" by simp
  with Cons show ?thesis using Max.set_eq_fold [of x xs] by simp
qed

lemma median_Inr:
  assumes "median ts = Inr md"
  shows "md = (if even (length ts)
               then (sort ts ! (length ts div 2 - 1) + sort ts ! (length ts div 2)) / 2
               else sort ts ! (length ts div 2))"
proof (cases "even (length ts)")
  case True
  then have "length ts mod 2 \<noteq> 1" by presburger
  with assms True show ?thesis
    by (simp add: median_def Let_def split: if_splits)
next
  case False
  then have "length ts mod 2 = 1" "length ts \<noteq> 0" by presburger+
  with assms False show ?thesis
    by (simp add: median_def Let_def split: if_splits)
qed

lemma summarize_url_report_Inr:
  assumes "summarize_url_report e tr tt acc = Inr e'"
  shows "\<exists>ts mx md. requests e = Some ts \<and> tr \<noteq> 0 \<and> tt \<noteq> 0 \<and> count e \<noteq> 0 \<and>
           max_py ts = Inr mx \<and> median ts = Inr md \<and>
           e' = e\<lparr>requests := None,
                  count_perc := Some (round_py (100 * of_nat (count e) / of_nat tr) acc),
                  time_perc := Some (round_py (100 * time_sum e / tt) acc),
                  time_avg := Some (round_py (time_sum e / of_nat (count e)) acc),
                  time_max := Some mx, time_med := Some md\<rparr>"
proof (cases "requests e")
  case None
  with assms show ?thesis by (simp add: summarize_url_report_def)
next
  case (Some ts)
  show ?thesis
  proof (cases "tr = 0 \<or> tt = 0 \<or> count e = 0")
    case True
    with assms Some show ?thesis by (auto simp add: summarize_url_report_def split: if_splits)
  next
    case False
    show ?thesis
    proof (cases "max_py ts")
      case (Inl a)
      with assms Some False show ?thesis by (simp add: summarize_url_report_def)
    next
      case mx: (Inr mx)
      show ?thesis
      proof (cases "median ts")
        case (Inl a)
        with assms Some False mx show ?thesis by (simp add: summarize_url_report_def)
      next
        case (Inr md)
        with assms Some False mx show ?thesis by (simp add: summarize_url_report_def)
      qed
    qed
  qed
qed


lemma process_lines_rounded:
  "process_lines f p acc lines st = Inr st' \<Longrightarrow>
   (\<forall>ke \<in> set (report st). rounded acc (time_sum (snd ke))) \<Longrightarrow>
   (\<forall>ke \<in> set (report st'). rounded acc (time_sum (snd ke)))"
proof (induction lines arbitrary: st)
  case Nil
  then show ?case by simp
next
  case (Cons line rest)
  show ?case
  proof (cases "parse_request f line p")
    case (Inl e)
    with Cons.prems show ?thesis
      by (auto simp: Let_def split: if_splits)
  next
    case (Inr ut)
    obtain u t where ut: "ut = (u, t)" by (cases ut)
    let ?st2 = "st\<lparr>total_requests := total_requests st + 1,
        report := add_request (report st) u t acc,
        total_requests_time := round_py (total_requests_time st + t) acc\<rparr>"
    from Cons.prems(1) Inr ut have run: "process_lines f p acc rest ?st2 = Inr st'"
      by (simp add: Let_def)
    have "rounded acc (time_sum (added_entry (report st) u t acc))"
      by (simp add: added_entry_def rounded_round_py split: option.splits)
    with Cons.prems(2) set_update_subset [of u "added_entry (report st) u t acc" "report st"]
    have "\<forall>ke \<in> set (report ?st2). rounded acc (time_sum (snd ke))"
      by (auto simp: add_request_eq)
    with run show ?thesis by (rule Cons.IH)
  qed
qed

section \<open>Example runs\<close>

lemma parse_line_a:
  "parse_request decimal_float line_a LOG_LINE_PATTERN = Inr (''1.1.1.1'', 1 / 2)"
  by code_simp

lemma parse_line_b:
  "parse_request decimal_float line_b LOG_LINE_PATTERN = Inr (''2.2.2.2'', 1 / 8)"
  by code_simp

lemma parse_line_dash:
  "parse_request decimal_float line_dash LOG_LINE_PATTERN = Inl ValueError"
  by code_simp

lemma parse_line_garbage:
  "parse_request decimal_float line_garbage LOG_LINE_PATTERN = Inl TypeError"
  by code_simp

lemma process_lines_step:
  "parse_request f line p = Inr (u, t) \<Longrightarrow>
   process_lines f p acc (line # rest) st =
     process_lines f p acc rest
       (st\<lparr>total_requests := total_requests st + 1,
           report := add_request (report st) u t acc,
           total_requests_time := round_py (total_requests_time st + t) acc\<rparr>)"
  by (simp add: Let_def)

lemma process_lines_break:
  "parse_request f line p = Inl e \<Longrightarrow> e = ValueError \<or> e = KeyError \<Longrightarrow>
   process_lines f p acc (line # rest) st =
     Inr (st\<lparr>total_requests := total_requests st + 1, total_errors := total_errors st + 1\<rparr>)"
  by (auto simp: Let_def)

lemma process_lines_raise:
  "parse_request f line p = Inl TypeError \<Longrightarrow>
   process_lines f p acc (line # rest) st = Inl TypeError"
  by (simp add: Let_def)

lemma add_a: "add_request [] ''1.1.1.1'' (1 / 2) 3 = [(''1.1.1.1'', entry_a)]"
  by code_simp

lemma add_ab: "add_request [(''1.1.1.1'', entry_a)] ''2.2.2.2'' (1 / 8) 3 = report state_ab"
  by code_simp

lemma add_b: "add_request [] ''2.2.2.2'' (1 / 8) 3 = [(''2.2.2.2'', entry_b)]"
  by code_simp

lemma add_ba:
  "add_request [(''2.2.2.2'', entry_b)] ''1.1.1.1'' (1 / 2) 3
   = [(''2.2.2.2'', entry_b), (''1.1.1.1'', entry_a)]"
  by code_simp

lemma add_bab:
  "add_request [(''2.2.2.2'', entry_b), (''1.1.1.1'', entry_a)] ''2.2.2.2'' (1 / 8) 3
   = report state_bab"
  by code_simp

lemma add_b_acc1:
  "add_request [] ''2.2.2.2'' (1 / 8) 1 = [(''2.2.2.2'', entry_b\<lparr>time_sum := 1 / 10\<rparr>)]"
  by code_simp

lemma round_examples:
  "round_py (1 / 2) 3 = 1 / 2" "round_py (5 / 8) 3 = 5 / 8" "round_py (1 / 8) 3 = 1 / 8"
  "round_py (3 / 4) 3 = 3 / 4" "round_py (1 / 8) 1 = 1 / 10"
  by code_simp+

lemma run_ab:
  "process_lines decimal_float LOG_LINE_PATTERN 3 [line_a, line_b] initial = Inr state_ab"
  by (simp del: process_lines.simps(2)
        add: process_lines_step [OF parse_line_a] process_lines_step [OF parse_line_b]
          initial_def add_a add_ab round_examples state_ab_def)

lemma run_bab:
  "process_lines decimal_float LOG_LINE_PATTERN 3 [line_b, line_a, line_b] initial
   = Inr state_bab"
  by (simp del: process_lines.simps(2)
        add: process_lines_step [OF parse_line_a] process_lines_step [OF parse_line_b]
          initial_def add_b add_ba add_bab round_examples state_bab_def)

lemma run_b_error:
  "process_lines decimal_float LOG_LINE_PATTERN 3 [line_b, line_dash, line_a] initial
   = Inr state_b_error"
  by (simp del: process_lines.simps(2)
        add: process_lines_step [OF parse_line_b] process_lines_break [OF parse_line_dash]
          initial_def add_b round_examples state_b_error_def)

lemma sum_ab_1:
  "summarize_report (report state_ab) 2 (5 / 8) 1 3
   = Inr ([row_b], [(''1.1.1.1'', entry_a), (''2.2.2.2'', row_b)])"
  by code_simp

lemma sum_ab_100:
  "summarize_report (report state_ab) 2 (5 / 8) 100 3
   = Inr ([row_b, row_a], [(''1.1.1.1'', row_a), (''2.2.2.2'', row_b)])"
  by code_simp

lemma sum_b_error:
  "summarize_report (report state_b_error) 2 (1 / 8) 100 3
   = Inr ([row_b_alone], [(''2.2.2.2'', row_b_alone)])"
  by code_simp

lemma sum_b_acc1:
  "summarize_report [(''2.2.2.2'', entry_b\<lparr>time_sum := 1 / 10\<rparr>)] 1 (1 / 10) 100 1
   = Inr ([row_b_acc1], [(''2.2.2.2'', row_b_acc1)])"
  by code_simp

lemma report_b_error:
  "create_report decimal_float [line_b, line_dash, line_a] LOG_LINE_PATTERN 100 3
   = Inr (Report [row_b_alone] 2 1)"
  using sum_b_error
  by (simp del: process_lines.simps(2) add: create_report_def run_b_error state_b_error_def)

lemma report_b_acc1:
  "create_report decimal_float [line_b] LOG_LINE_PATTERN 100 1 = Inr (Report [row_b_acc1] 1 0)"
  using sum_b_acc1
  by (simp del: process_lines.simps(2)
        add: create_report_def process_lines_step [OF parse_line_b] initial_def add_b_acc1
          round_examples)

lemma top_entry_zero: "top_reports [(''1.1.1.1'', entry_zero)] 100 = [0]"
  by code_simp

lemma first_of_state_ab:
  "entry_b = snd (report state_ab ! (top_reports (report state_ab) 100 ! 0))"
  by code_simp

lemma additions_bab:
  "additions decimal_float LOG_LINE_PATTERN [line_b, line_a, line_b]
   = [(''2.2.2.2'', 1 / 8), (''1.1.1.1'', 1 / 2), (''2.2.2.2'', 1 / 8)]"
  by (simp add: parse_line_a parse_line_b)

lemma run_b_acc1:
  "process_lines decimal_float LOG_LINE_PATTERN 1 [line_b] initial = Inr state_b_acc1"
  by (simp del: process_lines.simps(2)
        add: process_lines_step [OF parse_line_b] initial_def add_b_acc1 round_examples
          state_b_acc1_def)

lemma sum_state_b_acc1:
  "summarize_report (report state_b_acc1) 1 (1 / 10) 100 1
   = Inr ([row_b_acc1], [(''2.2.2.2'', row_b_acc1)])"
  by code_simp

lemma sum_b_raw:
  "summarize_report [(''2.2.2.2'', entry_b)] 1 (1 / 8) 100 1
   = Inr ([row_b_raw], [(''2.2.2.2'', row_b_raw)])"
  by code_simp

lemma summarize_report_row_source:
  assumes "summarize_report rep tr tt sz acc = Inr (rows, rep')"
    and "j < length rows"
    and "e = snd (rep ! (top_reports rep sz ! j))"
  shows "summarize_url_report e tr tt acc = Inr (rows ! j)"
    and "top_reports rep sz ! j < length rep"
proof -
  let ?top = "top_reports rep sz"
  have rows: "rows = map (\<lambda>i. snd (rep' ! i)) ?top"
    by (rule summarize_report_effect(2) [OF assms(1)])
  with assms(2) have j: "j < length ?top" by simp
  then have mem: "?top ! j \<in> set ?top" by simp
  have row: "rows ! j = snd (rep' ! (?top ! j))"
    using rows j by simp
  show "summarize_url_report e tr tt acc = Inr (rows ! j)"
    using summarize_report_effect(3) [OF assms(1) mem] row assms(3) by simp
  show "?top ! j < length rep"
    by (rule top_reports_range [OF mem])
qed

section \<open>What the selection of summarize_report does\<close>

text \<open>
  The selected aggregates are in ascending order of \<open>time_sum\<close>, and for a limit that
  is not negative there are \<open>min(size, len(report))\<close> of them.
\<close>

lemma top_reports_ascending:
  "sorted (map (\<lambda>i. time_sum (snd (rep ! i))) (top_reports rep sz))"
  by (simp add: top_reports_def slice_to_def Let_def take_map [symmetric] sorted_wrt_take)

lemma top_reports_length:
  "0 \<le> sz \<Longrightarrow> length (top_reports rep sz) = min (nat sz) (length rep)"
  by (auto simp: top_reports_def slice_to_def Let_def)

section \<open>The claims\<close>

text \<open>
  C1.  The summarizer is to return the \<open>min(limit, number of aggregates)\<close> aggregates
  with the largest \<open>time_sum\<close>, in descending order.  On the file of \<open>line_a\<close> (address
  1.1.1.1, request time 0.5) and \<open>line_b\<close> (address 2.2.2.2, request time 0.125), with
  limit 1 and accuracy 3, \<open>create_report\<close> returns the single row of 2.2.2.2, whose
  \<open>time_sum\<close> 0.125 is the smallest, not the largest: \<open>sorted\<close> is called without
  \<open>reverse=True\<close>, and the slice keeps the head of the ascending list.
\<close>

theorem create_report_selects_smallest:
  "create_report decimal_float [line_a, line_b] LOG_LINE_PATTERN 1 3
   = Inr (Report [row_b] 2 0)"
  using sum_ab_1
  by (simp del: process_lines.simps(2) add: create_report_def run_ab state_ab_def)

text \<open>
  C2.  A line that matches the pattern but whose request time is not numeric is to be
  counted as one error, after which processing continues with the next line.  On the
  file \<open>line_b\<close>, \<open>line_dash\<close> (request time \<open>-\<close>), \<open>line_a\<close> the loop counts the
  error and then stops at the \<open>break\<close>: \<open>line_a\<close> is never read, \<open>total_requests\<close> is
  2 and not 3, and the report has no row for 1.1.1.1.
\<close>

theorem create_report_stops_at_malformed_duration:
  "process_lines decimal_float LOG_LINE_PATTERN 3 [line_b, line_dash, line_a] initial
     = Inr state_b_error \<and>
   create_report decimal_float [line_b, line_dash, line_a] LOG_LINE_PATTERN 100 3
     = Inr (Report [row_b_alone] 2 1)"
  using run_b_error report_b_error by simp

text \<open>
  C3.  A line that does not match the pattern is to be counted as an error and never
  be fatal.  \<open>parse_line\<close> returns \<open>None\<close> for such a line, subscripting it raises
  \<open>TypeError\<close>, and the \<open>except\<close> clause catches \<open>ValueError\<close> and \<open>KeyError\<close> only:
  \<open>create_report\<close> raises and returns no \<open>Report\<close>.
\<close>

theorem create_report_raises_on_no_match:
  "create_report decimal_float [line_garbage] LOG_LINE_PATTERN 100 3 = Inl TypeError"
  by (simp del: process_lines.simps(2)
        add: create_report_def process_lines_raise [OF parse_line_garbage])

text \<open>
  C4.  With \<open>total_requests = 0\<close> or \<open>total_time = 0\<close> the summarizer is to fail with
  an \<open>EmptyInput\<close> condition.  It has no such condition.  With nothing to summarize it
  returns the empty list without failing:
\<close>

theorem summarize_report_empty_returns:
  "summarize_report [] 0 0 100 2 = Inr ([], [])"
  by code_simp

text \<open>
  C4, as amended.  With \<open>total_requests = 0\<close> or \<open>total_time = 0\<close> the summarizer
  returns no row at all: when it selects no aggregate it returns the empty list and
  leaves the dictionary as it is; otherwise the call raises at the first selected
  aggregate, \<open>KeyError\<close> when its \<open>requests\<close> key is missing and else the
  \<open>ZeroDivisionError\<close> of the division itself.
\<close>

theorem summarize_report_zero_totals:
  assumes "tr = 0 \<or> tt = 0"
  shows "summarize_report rep tr tt sz acc =
           (case top_reports rep sz of
              [] \<Rightarrow> Inr ([], rep)
            | i # rest \<Rightarrow>
                if requests (snd (rep ! i)) = None then Inl KeyError
                else Inl ZeroDivisionError)"
proof (cases "top_reports rep sz")
  case Nil
  then show ?thesis by (simp add: summarize_report_nil)
next
  case (Cons i rest)
  have "summarize_url_report (snd (rep ! i)) tr tt acc
      = (if requests (snd (rep ! i)) = None then Inl KeyError else Inl ZeroDivisionError)"
    using assms by (auto simp: summarize_url_report_def split: option.splits)
  with Cons show ?thesis
    by (simp add: summarize_report_def)
qed

theorem summarize_report_zero_totals_witness:
  "((1::nat) = 0 \<or> (0::rat) = 0) \<and>
   summarize_report [(''1.1.1.1'', entry_zero)] 1 0 100 2 = Inl ZeroDivisionError"
proof -
  have h: "(1::nat) = 0 \<or> (0::rat) = 0" by simp
  have "requests (snd ([(''1.1.1.1'', entry_zero)] ! 0)) \<noteq> None"
    by (simp add: entry_zero_def)
  with summarize_report_zero_totals [OF h, of "[(''1.1.1.1'', entry_zero)]" 100 2]
  show ?thesis by (simp add: top_entry_zero)
qed

text \<open>
  C5.  Every row that the summarizer returns holds the figures of the aggregate it was
  made from: \<open>count_perc = round(100 * count / total_requests, accuracy)\<close>,
  \<open>time_perc = round(100 * time_sum / total_time, accuracy)\<close>,
  \<open>time_avg = round(time_sum / count, accuracy)\<close>, \<open>time_max\<close> the largest of the
  durations and \<open>time_med\<close> their median, the mean of the two middle values when their
  number is even.  A call that returns has nonzero totals and a nonempty list of
  durations for every row.  Here \<open>e\<close> is the aggregate, before the call, that row \<open>j\<close>
  was made from.
\<close>

theorem summarize_report_rows:
  assumes "summarize_report rep tr tt sz acc = Inr (rows, rep')"
    and "j < length rows"
    and "e = snd (rep ! (top_reports rep sz ! j))"
  shows "\<exists>ts. requests e = Some ts \<and> ts \<noteq> [] \<and> tr \<noteq> 0 \<and> tt \<noteq> 0 \<and> count e \<noteq> 0 \<and>
           count_perc (rows ! j) = Some (round_py (100 * of_nat (count e) / of_nat tr) acc) \<and>
           time_perc (rows ! j) = Some (round_py (100 * time_sum e / tt) acc) \<and>
           time_avg (rows ! j) = Some (round_py (time_sum e / of_nat (count e)) acc) \<and>
           time_max (rows ! j) = Some (Max (set ts)) \<and>
           time_med (rows ! j) =
             Some (if even (length ts)
                   then (sort ts ! (length ts div 2 - 1) + sort ts ! (length ts div 2)) / 2
                   else sort ts ! (length ts div 2))"
proof -
  let ?top = "top_reports rep sz"
  have rows: "rows = map (\<lambda>i. snd (rep' ! i)) ?top"
    by (rule summarize_report_effect(2) [OF assms(1)])
  with assms(2) have j: "j < length ?top" by simp
  then have mem: "?top ! j \<in> set ?top" by simp
  have row: "rows ! j = snd (rep' ! (?top ! j))"
    using rows j by simp
  have "summarize_url_report e tr tt acc = Inr (rows ! j)"
    using summarize_report_effect(3) [OF assms(1) mem] row assms(3) by simp
  from summarize_url_report_Inr [OF this] obtain ts mx md where
    ts: "requests e = Some ts" and nz: "tr \<noteq> 0" "tt \<noteq> 0" "count e \<noteq> 0" and
    mx: "max_py ts = Inr mx" and md: "median ts = Inr md" and
    r: "rows ! j = e\<lparr>requests := None,
                  count_perc := Some (round_py (100 * of_nat (count e) / of_nat tr) acc),
                  time_perc := Some (round_py (100 * time_sum e / tt) acc),
                  time_avg := Some (round_py (time_sum e / of_nat (count e)) acc),
                  time_max := Some mx, time_med := Some md\<rparr>"
    by blast
  from max_py_Inr [OF mx] have ne: "ts \<noteq> []" and mxv: "mx = Max (set ts)" by simp_all
  note mdv = median_Inr [OF md]
  have "count_perc (rows ! j) = Some (round_py (100 * of_nat (count e) / of_nat tr) acc)"
    by (simp add: r)
  moreover have "time_perc (rows ! j) = Some (round_py (100 * time_sum e / tt) acc)"
    by (simp add: r)
  moreover have "time_avg (rows ! j) = Some (round_py (time_sum e / of_nat (count e)) acc)"
    by (simp add: r)
  moreover have "time_max (rows ! j) = Some (Max (set ts))"
    by (simp add: r mxv)
  moreover have "time_med (rows ! j) =
             Some (if even (length ts)
                   then (sort ts ! (length ts div 2 - 1) + sort ts ! (length ts div 2)) / 2
                   else sort ts ! (length ts div 2))"
    using mdv by (simp add: r)
  ultimately show ?thesis using ts ne nz by blast
qed

theorem summarize_report_rows_witness:
  "summarize_report (report state_ab) 2 (5 / 8) 100 3
     = Inr ([row_b, row_a], [(''1.1.1.1'', row_a), (''2.2.2.2'', row_b)]) \<and>
   (0::nat) < length [row_b, row_a] \<and>
   entry_b = snd (report state_ab ! (top_reports (report state_ab) 100 ! 0)) \<and>
   (\<exists>ts. requests entry_b = Some ts \<and> ts \<noteq> [] \<and> (2::nat) \<noteq> 0 \<and> (5 / 8 :: rat) \<noteq> 0 \<and>
      count entry_b \<noteq> 0 \<and>
      count_perc ([row_b, row_a] ! 0)
        = Some (round_py (100 * of_nat (count entry_b) / of_nat 2) 3) \<and>
      time_perc ([row_b, row_a] ! 0) = Some (round_py (100 * time_sum entry_b / (5 / 8)) 3) \<and>
      time_avg ([row_b, row_a] ! 0)
        = Some (round_py (time_sum entry_b / of_nat (count entry_b)) 3) \<and>
      time_max ([row_b, row_a] ! 0) = Some (Max (set ts)) \<and>
      time_med ([row_b, row_a] ! 0) =
        Some (if even (length ts)
              then (sort ts ! (length ts div 2 - 1) + sort ts ! (length ts div 2)) / 2
              else sort ts ! (length ts div 2)))"
proof -
  have j: "(0::nat) < length [row_b, row_a]" by simp
  from summarize_report_rows [OF sum_ab_100 j first_of_state_ab] sum_ab_100 j first_of_state_ab
  show ?thesis by blast
qed

text \<open>
  C6.  Every numeric value of a row is to be rounded to the configured accuracy.
  \<open>time_max\<close> and \<open>time_med\<close> are not: on the file of \<open>line_b\<close> alone (request time
  0.125) with accuracy 1 the row has \<open>time_max = time_med = 0.125\<close>, which rounding
  to one place changes.  Nor does the summarizer round \<open>time_sum\<close>: called at accuracy
  1 on an aggregate whose \<open>time_sum\<close> is 0.125, it returns a row with \<open>time_sum\<close>
  0.125.
\<close>

theorem row_values_not_rounded:
  "create_report decimal_float [line_b] LOG_LINE_PATTERN 100 1
     = Inr (Report [row_b_acc1] 1 0) \<and>
   time_max row_b_acc1 = Some (1 / 8) \<and> time_med row_b_acc1 = Some (1 / 8) \<and>
   \<not> rounded 1 (1 / 8) \<and>
   summarize_report [(''2.2.2.2'', entry_b)] 1 (1 / 8) 100 1
     = Inr ([row_b_raw], [(''2.2.2.2'', row_b_raw)]) \<and>
   time_sum row_b_raw = 1 / 8"
proof -
  have "time_max row_b_acc1 = Some (1 / 8) \<and> time_med row_b_acc1 = Some (1 / 8) \<and>
        \<not> rounded 1 (1 / 8) \<and> time_sum row_b_raw = 1 / 8"
    by code_simp
  with report_b_acc1 sum_b_raw show ?thesis by simp
qed

text \<open>
  C6, as amended.  In every row that the summarizer returns, \<open>count_perc\<close>,
  \<open>time_perc\<close> and \<open>time_avg\<close> are rounded to the configured accuracy; \<open>time_sum\<close>
  is the \<open>time_sum\<close> of the aggregate, unchanged, and so it is rounded to the accuracy
  whenever the aggregates are those that the loop of \<open>create_report\<close> built at that
  accuracy (as in every row of a report that \<open>create_report\<close> returns); \<open>time_max\<close>
  and \<open>time_med\<close> are the maximum and the median of the durations of the aggregate as
  they were read, not rounded.  Here \<open>e\<close> is the aggregate, before the call, that row
  \<open>j\<close> was made from.
\<close>

theorem summarize_report_row_rounding:
  assumes "summarize_report rep tr tt sz acc = Inr (rows, rep')"
    and "j < length rows"
    and "e = snd (rep ! (top_reports rep sz ! j))"
  shows "\<exists>ts. requests e = Some ts \<and> ts \<noteq> [] \<and>
           (\<exists>v. count_perc (rows ! j) = Some v \<and> rounded acc v) \<and>
           (\<exists>v. time_perc (rows ! j) = Some v \<and> rounded acc v) \<and>
           (\<exists>v. time_avg (rows ! j) = Some v \<and> rounded acc v) \<and>
           time_sum (rows ! j) = time_sum e \<and>
           ((\<exists>to_float pattern lines st.
                process_lines to_float pattern acc lines initial = Inr st \<and> rep = report st)
              \<longrightarrow> rounded acc (time_sum (rows ! j))) \<and>
           time_max (rows ! j) = Some (Max (set ts)) \<and>
           time_med (rows ! j) =
             Some (if even (length ts)
                   then (sort ts ! (length ts div 2 - 1) + sort ts ! (length ts div 2)) / 2
                   else sort ts ! (length ts div 2))"
proof -
  note src = summarize_report_row_source [OF assms]
  from summarize_url_report_Inr [OF src(1)] obtain ts mx md where
    ts: "requests e = Some ts" and
    mx: "max_py ts = Inr mx" and md: "median ts = Inr md" and
    r: "rows ! j = e\<lparr>requests := None,
                  count_perc := Some (round_py (100 * of_nat (count e) / of_nat tr) acc),
                  time_perc := Some (round_py (100 * time_sum e / tt) acc),
                  time_avg := Some (round_py (time_sum e / of_nat (count e)) acc),
                  time_max := Some mx, time_med := Some md\<rparr>"
    by blast
  from max_py_Inr [OF mx] have ne: "ts \<noteq> []" and mxv: "mx = Max (set ts)" by simp_all
  note mdv = median_Inr [OF md]
  have cp: "\<exists>v. count_perc (rows ! j) = Some v \<and> rounded acc v"
    by (simp add: r rounded_round_py)
  have tp: "\<exists>v. time_perc (rows ! j) = Some v \<and> rounded acc v"
    by (simp add: r rounded_round_py)
  have ta: "\<exists>v. time_avg (rows ! j) = Some v \<and> rounded acc v"
    by (simp add: r rounded_round_py)
  have tsum: "time_sum (rows ! j) = time_sum e"
    by (simp add: r)
  have built: "(\<exists>to_float pattern lines st.
                process_lines to_float pattern acc lines initial = Inr st \<and> rep = report st)
              \<longrightarrow> rounded acc (time_sum (rows ! j))"
  proof
    assume "\<exists>to_float pattern lines st.
              process_lines to_float pattern acc lines initial = Inr st \<and> rep = report st"
    then obtain to_float pattern lines st where
      run: "process_lines to_float pattern acc lines initial = Inr st" and
      rep: "rep = report st"
      by blast
    have "\<forall>ke \<in> set (report st). rounded acc (time_sum (snd ke))"
      using process_lines_rounded [OF run] by (simp add: initial_def)
    moreover have "rep ! (top_reports rep sz ! j) \<in> set rep"
      using src(2) by simp
    ultimately have "rounded acc (time_sum e)"
      using rep assms(3) by blast
    with tsum show "rounded acc (time_sum (rows ! j))" by simp
  qed
  have tmax: "time_max (rows ! j) = Some (Max (set ts))"
    by (simp add: r mxv)
  have tmed: "time_med (rows ! j) =
             Some (if even (length ts)
                   then (sort ts ! (length ts div 2 - 1) + sort ts ! (length ts div 2)) / 2
                   else sort ts ! (length ts div 2))"
    using mdv by (simp add: r)
  from ts ne cp tp ta tsum built tmax tmed show ?thesis by blast
qed

theorem summarize_report_row_rounding_witness:
  "summarize_report (report state_b_acc1) 1 (1 / 10) 100 1
     = Inr ([row_b_acc1], [(''2.2.2.2'', row_b_acc1)]) \<and>
   (0::nat) < length [row_b_acc1] \<and>
   process_lines decimal_float LOG_LINE_PATTERN 1 [line_b] initial = Inr state_b_acc1 \<and>
   (\<exists>ts. requests (snd (report state_b_acc1 ! (top_reports (report state_b_acc1) 100 ! 0)))
           = Some ts \<and> ts \<noteq> [] \<and>
      (\<exists>v. count_perc ([row_b_acc1] ! 0) = Some v \<and> rounded 1 v) \<and>
      (\<exists>v. time_perc ([row_b_acc1] ! 0) = Some v \<and> rounded 1 v) \<and>
      (\<exists>v. time_avg ([row_b_acc1] ! 0) = Some v \<and> rounded 1 v) \<and>
      time_sum ([row_b_acc1] ! 0)
        = time_sum (snd (report state_b_acc1 ! (top_reports (report state_b_acc1) 100 ! 0))) \<and>
      rounded 1 (time_sum ([row_b_acc1] ! 0)) \<and>
      time_max ([row_b_acc1] ! 0) = Some (Max (set ts)) \<and>
      time_med ([row_b_acc1] ! 0) =
        Some (if even (length ts)
              then (sort ts ! (length ts div 2 - 1) + sort ts ! (length ts div 2)) / 2
              else sort ts ! (length ts div 2)))"
proof -
  have j: "(0::nat) < length [row_b_acc1]" by simp
  have built: "\<exists>to_float pattern lines st.
      process_lines to_float pattern 1 lines initial = Inr st \<and>
      report state_b_acc1 = report st"
    using run_b_acc1 by blast
  from summarize_report_row_rounding [OF sum_state_b_acc1 j refl] built
    sum_state_b_acc1 j run_b_acc1
  show ?thesis by blast
qed

text \<open>
  C7.  After the loop of \<open>create_report\<close> every aggregate holds exactly the durations
  added for its key, in order; its \<open>count\<close> is their number, and its \<open>time_sum\<close> is
  their running sum, rounded to the accuracy after every addition.
\<close>

theorem aggregate_invariant:
  assumes "process_lines to_float pattern accuracy lines initial = Inr st"
  shows "\<forall>(k, e) \<in> set (report st).
           requests e = Some (durations k (additions to_float pattern lines)) \<and>
           count e = length (durations k (additions to_float pattern lines)) \<and>
           time_sum e = running_sum accuracy (durations k (additions to_float pattern lines))"
proof clarify
  fix k e
  assume mem: "(k, e) \<in> set (report st)"
  let ?adds = "additions to_float pattern lines"
  have rep: "report st = foldl (\<lambda>r ut. add_request r (fst ut) (snd ut) accuracy) [] ?adds"
    using process_lines_report [OF assms] by (simp add: initial_def)
  have "distinct (map fst (report st))"
    unfolding rep by (rule distinct_additions)
  with mem have "map_of (report st) k = Some e" by simp
  then have "e = aggregate_of accuracy k (durations k ?adds)"
    unfolding rep map_of_additions by (simp split: if_splits)
  then show "requests e = Some (durations k ?adds) \<and>
           count e = length (durations k ?adds) \<and>
           time_sum e = running_sum accuracy (durations k ?adds)"
    by (simp add: aggregate_of_def)
qed

theorem aggregate_invariant_witness:
  "process_lines decimal_float LOG_LINE_PATTERN 3 [line_b, line_a, line_b] initial
     = Inr state_bab \<and>
   requests entry_b2 = Some (durations ''2.2.2.2''
     [(''2.2.2.2'', 1 / 8), (''1.1.1.1'', 1 / 2), (''2.2.2.2'', 1 / 8)]) \<and>
   count entry_b2 = length (durations ''2.2.2.2''
     [(''2.2.2.2'', 1 / 8), (''1.1.1.1'', 1 / 2), (''2.2.2.2'', 1 / 8)]) \<and>
   time_sum entry_b2 = running_sum 3 (durations ''2.2.2.2''
     [(''2.2.2.2'', 1 / 8), (''1.1.1.1'', 1 / 2), (''2.2.2.2'', 1 / 8)]) \<and>
   requests entry_a = Some (durations ''1.1.1.1''
     [(''2.2.2.2'', 1 / 8), (''1.1.1.1'', 1 / 2), (''2.2.2.2'', 1 / 8)]) \<and>
   count entry_a = length (durations ''1.1.1.1''
     [(''2.2.2.2'', 1 / 8), (''1.1.1.1'', 1 / 2), (''2.2.2.2'', 1 / 8)]) \<and>
   time_sum entry_a = running_sum 3 (durations ''1.1.1.1''
     [(''2.2.2.2'', 1 / 8), (''1.1.1.1'', 1 / 2), (''2.2.2.2'', 1 / 8)])"
proof -
  have rep: "report state_bab = [(''2.2.2.2'', entry_b2), (''1.1.1.1'', entry_a)]"
    by (simp add: state_bab_def)
  note inv = aggregate_invariant [OF run_bab, unfolded additions_bab rep]
  from inv run_bab show ?thesis
    by (simp del: process_lines.simps(2))
qed

text \<open>
  C8.  When \<open>create_report\<close> returns, \<open>total_requests\<close> is \<open>total_errors\<close> plus the
  sum of \<open>count\<close> over all the aggregates that the loop built (of which the report
  holds the selected ones).
\<close>

theorem create_report_counters:
  assumes "create_report to_float lines pattern report_size accuracy = Inr (Report rows tr te)"
    and "process_lines to_float pattern accuracy lines initial = Inr st"
  shows "tr = te + sum_list (map (\<lambda>p. count (snd p)) (report st))"
proof -
  from assms have "tr = total_requests st" "te = total_errors st"
    by (auto simp: create_report_def split: sum.splits)
  moreover have "total_requests st
      = total_errors st + sum_list (map (\<lambda>p. count (snd p)) (report st))"
    by (rule process_lines_counters [OF assms(2)]) (simp add: initial_def)
  ultimately show ?thesis by simp
qed

theorem create_report_counters_witness:
  "create_report decimal_float [line_b, line_dash, line_a] LOG_LINE_PATTERN 100 3
     = Inr (Report [row_b_alone] 2 1) \<and>
   process_lines decimal_float LOG_LINE_PATTERN 3 [line_b, line_dash, line_a] initial
     = Inr state_b_error \<and>
   (2::nat) = 1 + sum_list (map (\<lambda>p. count (snd p)) (report state_b_error))"
  using create_report_counters [OF report_b_error run_b_error] report_b_error run_b_error
  by simp

text \<open>
  C9.  Calling the summarizer twice on the same accumulator state is to succeed both
  times with the same output.  The first call removes the \<open>requests\<close> key from every
  aggregate it selects, so the second call on the dictionary it leaves raises
  \<open>KeyError\<close>:
\<close>

theorem summarize_report_twice_fails:
  "summarize_report (report state_ab) 2 (5 / 8) 100 3
     = Inr ([row_b, row_a], [(''1.1.1.1'', row_a), (''2.2.2.2'', row_b)]) \<and>
   summarize_report [(''1.1.1.1'', row_a), (''2.2.2.2'', row_b)] 2 (5 / 8) 100 3
     = Inl KeyError"
proof -
  have "summarize_report [(''1.1.1.1'', row_a), (''2.2.2.2'', row_b)] 2 (5 / 8) 100 3
     = Inl KeyError"
    by code_simp
  with sum_ab_100 show ?thesis by simp
qed

text \<open>
  C9, as amended.  After a call of the summarizer that returns, a second call with the
  same arguments on the dictionary that the first call left returns the same (empty)
  output when the first call selected no aggregate, and raises \<open>KeyError\<close> otherwise.
\<close>

theorem summarize_report_again:
  assumes "summarize_report rep tr tt sz acc = Inr (rows, rep')"
  shows "summarize_report rep' tr tt sz acc
         = (if rows = [] then Inr ([], rep') else Inl KeyError)"
proof (cases "top_reports rep sz")
  case Nil
  then have "rows = []" "rep' = rep"
    using assms by (simp_all add: summarize_report_nil)
  moreover have "top_reports rep' sz = []"
    using Nil top_reports_after [OF assms] by simp
  ultimately show ?thesis by (simp add: summarize_report_nil)
next
  case (Cons i rest)
  then have rows: "rows \<noteq> []"
    using summarize_report_effect(2) [OF assms] by simp
  have "i \<in> set (top_reports rep sz)" using Cons by simp
  from summarize_report_effect(3) [OF assms this]
  have "requests (snd (rep' ! i)) = None"
    by (simp add: summarize_url_report_keeps)
  then have "summarize_url_report (snd (rep' ! i)) tr tt acc = Inl KeyError"
    by (simp add: summarize_url_report_def)
  moreover have "top_reports rep' sz = i # rest"
    using Cons top_reports_after [OF assms] by simp
  ultimately have "summarize_report rep' tr tt sz acc = Inl KeyError"
    by (rule summarize_report_first [rotated])
  with rows show ?thesis by simp
qed

theorem summarize_report_again_witness:
  "summarize_report (report state_ab) 2 (5 / 8) 1 3
     = Inr ([row_b], [(''1.1.1.1'', entry_a), (''2.2.2.2'', row_b)]) \<and>
   summarize_report [(''1.1.1.1'', entry_a), (''2.2.2.2'', row_b)] 2 (5 / 8) 1 3
     = Inl KeyError"
  using summarize_report_again [OF sum_ab_1] sum_ab_1 by simp

text \<open>
  C10.  In every run of \<open>create_report\<close> that returns a \<open>Report\<close>, \<open>total_errors\<close>
  is at most 1: the loop ends at the first line that is counted as an error.
\<close>

theorem create_report_total_errors:
  assumes "create_report to_float lines pattern report_size accuracy = Inr (Report rows tr te)"
  shows "te \<le> 1"
proof -
  from assms obtain st where
    run: "process_lines to_float pattern accuracy lines initial = Inr st" and
    te: "te = total_errors st"
    by (auto simp: create_report_def split: sum.splits)
  from process_lines_errors [OF run] te show ?thesis
    by (simp add: initial_def)
qed

theorem create_report_total_errors_witness:
  "create_report decimal_float [line_b, line_dash, line_a] LOG_LINE_PATTERN 100 3
     = Inr (Report [row_b_alone] 2 1) \<and> (1::nat) \<le> 1"
  using create_report_total_errors [OF report_b_error] report_b_error by simp

end
